theory Spec2Isabelle
  imports Main "HOL-Library.AList"
begin

section \<open>JavaScript string primitives used by the pages\<close>

text \<open>
  A JavaScript string is modelled as a \<^typ>\<open>string\<close>: one \<^typ>\<open>char\<close> per code unit,
  for code units below 256. The three characters the CSV code tests for:
\<close>

definition dquote :: char where
  "dquote = CHR 0x22"

definition comma :: char where
  "comma = CHR '',''"

definition newline :: char where
  "newline = CHR 0x0A"

text \<open>
  \<^verbatim>\<open>String.prototype.trim\<close> removes white space and line terminators from both ends.
  Below code unit 256 these are TAB, LF, VT, FF, CR, SPACE and NO-BREAK SPACE.
\<close>

definition is_ws :: "char \<Rightarrow> bool" where
  "is_ws c = (c = CHR 0x09 \<or> c = CHR 0x0A \<or> c = CHR 0x0B \<or> c = CHR 0x0C \<or>
              c = CHR 0x0D \<or> c = CHR 0x20 \<or> c = CHR 0xA0)"

definition trim :: "string \<Rightarrow> string" where
  "trim s = rev (dropWhile is_ws (rev (dropWhile is_ws s)))"

text \<open>\<^verbatim>\<open>s.split(sep)\<close> for a one-character separator: never an empty array.\<close>

fun split_on :: "char \<Rightarrow> string \<Rightarrow> string list" where
  "split_on sep [] = [[]]"
| "split_on sep (c # cs) =
     (if c = sep then [] # split_on sep cs
      else (case split_on sep cs of
              piece # pieces \<Rightarrow> (c # piece) # pieces
            | [] \<Rightarrow> [[c]]))"

text \<open>\<^verbatim>\<open>xs.join(sep)\<close> on an array of strings.\<close>

fun join :: "string \<Rightarrow> string list \<Rightarrow> string" where
  "join sep [] = []"
| "join sep [x] = x"
| "join sep (x # y # ys) = x @ sep @ join sep (y # ys)"

text \<open>\<^verbatim>\<open>s.replace(/"/g, '""')\<close> and \<^verbatim>\<open>s.replace(/"/g, '')\<close>.\<close>

definition double_quotes :: "string \<Rightarrow> string" where
  "double_quotes s = concat (map (\<lambda>c. if c = dquote then [dquote, dquote] else [c]) s)"

definition remove_quotes :: "string \<Rightarrow> string" where
  "remove_quotes s = filter (\<lambda>c. c \<noteq> dquote) s"

section \<open>The problems table\<close>

text \<open>
  A row of the \<^verbatim>\<open>problems\<close> table as the client receives it. The three pages declare
  their own \<^verbatim>\<open>Problem\<close> interfaces, each a subset of these columns. The type
  parameter is the representation of a timestamp: the export page writes the timestamp
  strings as they are (\<^typ>\<open>string\<close>); the dashboard and the analytics page only ever read
  a timestamp through \<^verbatim>\<open>new Date(...)\<close>, so there a timestamp is the instant it denotes,
  in milliseconds since the epoch (\<^typ>\<open>int\<close>). A \<^verbatim>\<open>null\<close> column is \<^term>\<open>None\<close>.
\<close>

record 'ts problem_row =
  row_id :: string
  user_id :: string
  title :: string
  platform :: string
  difficulty :: string
  topic :: string
  status :: string
  problem_url :: "string option"
  solution_url :: "string option"
  "notes" :: "string option"
  solved_at :: "'ts option"
  created_at :: 'ts
  updated_at :: 'ts

section \<open>Export: \<^verbatim>\<open>handleExport\<close> (ImportExportPage)\<close>

definition exportHeaders :: "string list" where
  "exportHeaders = [''title'', ''platform'', ''difficulty'', ''topic'', ''status'',
     ''problem_url'', ''solution_url'', ''notes'', ''solved_at'', ''created_at'']"

text \<open>\<^verbatim>\<open>problem[header]\<close>: \<^term>\<open>None\<close> is \<^verbatim>\<open>null\<close> or \<^verbatim>\<open>undefined\<close>.\<close>

definition column :: "string problem_row \<Rightarrow> string \<Rightarrow> string option" where
  "column problem header =
     (if header = ''id'' then Some (row_id problem)
      else if header = ''user_id'' then Some (user_id problem)
      else if header = ''title'' then Some (title problem)
      else if header = ''platform'' then Some (platform problem)
      else if header = ''difficulty'' then Some (difficulty problem)
      else if header = ''topic'' then Some (topic problem)
      else if header = ''status'' then Some (status problem)
      else if header = ''problem_url'' then problem_url problem
      else if header = ''solution_url'' then solution_url problem
      else if header = ''notes'' then notes problem
      else if header = ''solved_at'' then solved_at problem
      else if header = ''created_at'' then Some (created_at problem)
      else if header = ''updated_at'' then Some (updated_at problem)
      else None)"

text \<open>The body of \<^verbatim>\<open>headers.map(header => ...)\<close>: one CSV field from one column value.\<close>

definition escapeField :: "string option \<Rightarrow> string" where
  "escapeField v =
     (case v of
        None \<Rightarrow> []
      | Some stringValue \<Rightarrow>
          if comma \<in> set stringValue \<or> dquote \<in> set stringValue \<or> newline \<in> set stringValue
          then [dquote] @ double_quotes stringValue @ [dquote]
          else stringValue)"

definition exportRow :: "string problem_row \<Rightarrow> string" where
  "exportRow problem = join [comma] (map (\<lambda>header. escapeField (column problem header)) exportHeaders)"

definition csvContent :: "string problem_row list \<Rightarrow> string" where
  "csvContent data = join [newline] (join [comma] exportHeaders # map exportRow data)"

section \<open>Import: \<^verbatim>\<open>parseCSVLine\<close> and \<^verbatim>\<open>handleImport\<close> (ImportExportPage)\<close>

text \<open>
  The loop of \<^verbatim>\<open>parseCSVLine\<close> over the rest of the line, with its three variables.
  The escaped quote consumes two characters (\<^verbatim>\<open>i++\<close> inside the loop).
\<close>

fun parse_loop :: "string \<Rightarrow> string list \<Rightarrow> string \<Rightarrow> bool \<Rightarrow> string list" where
  "parse_loop [] result current inQuotes = result @ [current]"
| "parse_loop (c # cs) result current inQuotes =
     (if c = dquote then
        (case cs of
           d # cs' \<Rightarrow>
             if inQuotes \<and> d = dquote then parse_loop cs' result (current @ [dquote]) inQuotes
             else parse_loop cs result current (\<not> inQuotes)
         | [] \<Rightarrow> parse_loop cs result current (\<not> inQuotes))
      else if c = comma \<and> \<not> inQuotes then parse_loop cs (result @ [current]) [] inQuotes
      else parse_loop cs result (current @ [c]) inQuotes)"

definition parseCSVLine :: "string \<Rightarrow> string list" where
  "parseCSVLine line = parse_loop line [] [] False"

text \<open>
  The object under construction, \<^verbatim>\<open>problem: any\<close>: its properties in insertion order,
  \<^term>\<open>None\<close> for a \<^verbatim>\<open>null\<close> value. Assigning a property that exists keeps its place
  (\<^const>\<open>AList.update\<close>).
\<close>

type_synonym problem = "(string \<times> string option) list"

definition requiredHeaders :: "string list" where
  "requiredHeaders = [''title'', ''platform'', ''difficulty'', ''topic'']"

text \<open>\<^verbatim>\<open>lines[0].split(',').map(h => h.trim().replace(/"/g, ''))\<close>\<close>

definition parseHeaders :: "string \<Rightarrow> string list" where
  "parseHeaders line = map (\<lambda>h. remove_quotes (trim h)) (split_on comma line)"

text \<open>
  The \<^verbatim>\<open>switch (header)\<close> of the import loop. \<^verbatim>\<open>Date.parse\<close> is the runtime's; the
  model takes \<open>date_ok value\<close> for \<^verbatim>\<open>!isNaN(Date.parse(value))\<close>.
\<close>

definition setField :: "(string \<Rightarrow> bool) \<Rightarrow> string \<Rightarrow> string \<Rightarrow> problem \<Rightarrow> problem" where
  "setField date_ok header v problem =
     (if header = ''title'' \<or> header = ''platform'' \<or> header = ''topic'' then
        AList.update header (Some v) problem
      else if header = ''difficulty'' then
        (if v \<in> set [''Easy'', ''Medium'', ''Hard''] then AList.update header (Some v) problem
         else AList.update header (Some ''Easy'') problem)
      else if header = ''status'' then
        (if v \<in> set [''Todo'', ''In Progress'', ''Solved'', ''Reviewed'']
         then AList.update header (Some v) problem
         else AList.update header (Some ''Todo'') problem)
      else if header = ''problem_url'' \<or> header = ''solution_url'' \<or> header = ''notes'' then
        AList.update header (if v = [] then None else Some v) problem
      else if header = ''solved_at'' then
        AList.update header (if v \<noteq> [] \<and> date_ok v then Some v else None) problem
      else problem)"

text \<open>
  \<^verbatim>\<open>headers.forEach((header, index) => ...)\<close> with
  \<^verbatim>\<open>value = values[index]?.trim() || ''\<close>: a missing value reads as the empty string.
\<close>

fun forEachHeader ::
  "(string \<Rightarrow> bool) \<Rightarrow> string list \<Rightarrow> nat \<Rightarrow> string list \<Rightarrow> problem \<Rightarrow> problem" where
  "forEachHeader date_ok [] index vals problem = problem"
| "forEachHeader date_ok (header # rest) index vals problem =
     forEachHeader date_ok rest (index + 1) vals
       (setField date_ok header (if index < length vals then trim (vals ! index) else []) problem)"

text \<open>\<^verbatim>\<open>!problem.key\<close>: the property is missing, \<^verbatim>\<open>null\<close> or the empty string.\<close>

definition falsy :: "problem \<Rightarrow> string \<Rightarrow> bool" where
  "falsy problem key =
     (case map_of problem key of
        None \<Rightarrow> True
      | Some None \<Rightarrow> True
      | Some (Some s) \<Rightarrow> s = [])"

definition buildProblem :: "(string \<Rightarrow> bool) \<Rightarrow> string \<Rightarrow> string list \<Rightarrow> string list \<Rightarrow> problem" where
  "buildProblem date_ok uid headers vals =
     forEachHeader date_ok headers 0 vals [(''user_id'', Some uid)]"

definition rowInvalid :: "problem \<Rightarrow> bool" where
  "rowInvalid problem =
     (falsy problem ''title'' \<or> falsy problem ''platform'' \<or>
      falsy problem ''difficulty'' \<or> falsy problem ''topic'')"

text \<open>
  The loop \<^verbatim>\<open>for (let i = 1; i < lines.length; i++)\<close> over the remaining lines. It returns
  the array \<^verbatim>\<open>problems\<close> and, as the trace of \<^verbatim>\<open>console.warn\<close>, the row numbers
  \<^verbatim>\<open>i + 1\<close> of the warnings, both in the order of the lines.
\<close>

fun importRows ::
  "(string \<Rightarrow> bool) \<Rightarrow> string \<Rightarrow> string list \<Rightarrow> nat \<Rightarrow> string list \<Rightarrow> problem list \<times> nat list" where
  "importRows date_ok uid headers i [] = ([], [])"
| "importRows date_ok uid headers i (line # rest) =
     (let vals = parseCSVLine line;
          later = importRows date_ok uid headers (i + 1) rest
      in if length vals = 0 then later
         else let problem = buildProblem date_ok uid headers vals
              in if rowInvalid problem then (fst later, (i + 1) # snd later)
                 else (problem # fst later, snd later))"

text \<open>
  The three \<^verbatim>\<open>throw new Error(...)\<close> of \<^verbatim>\<open>handleImport\<close>, named as the specification
  names them, and the message each carries.
\<close>

datatype import_error = MalformedInput | MissingColumns "string list" | NoValidRows


definition nonBlankLines :: "string \<Rightarrow> string list" where
  "nonBlankLines text = filter (\<lambda>line. trim line \<noteq> []) (split_on newline text)"

text \<open>
  \<^verbatim>\<open>handleImport\<close> from the file's text up to the array handed to the database client:
  \<^term>\<open>Inl\<close> is a thrown error, \<^term>\<open>Inr\<close> the array \<^verbatim>\<open>problems\<close> that is inserted and
  whose length the success message reports.
\<close>

definition handleImport :: "(string \<Rightarrow> bool) \<Rightarrow> string \<Rightarrow> string \<Rightarrow> import_error + problem list" where
  "handleImport date_ok uid text =
     (let lines = nonBlankLines text
      in if length lines < 2 then Inl MalformedInput
         else let headers = parseHeaders (lines ! 0);
                  missingHeaders = filter (\<lambda>h. h \<notin> set headers) requiredHeaders
              in if length missingHeaders > 0 then Inl (MissingColumns missingHeaders)
                 else let problems = fst (importRows date_ok uid headers 1 (drop 1 lines))
                      in if length problems = 0 then Inl NoValidRows else Inr problems)"


section \<open>Dates, as far as the pages use the runtime's \<^verbatim>\<open>Date\<close>\<close>

text \<open>
  An instant is a number of milliseconds since the epoch. The time zone of the browser is
  given by the two conversions of the language definition: \<open>LocalTime\<close> takes an instant
  to local time, \<open>UTC\<close> takes a local time back to an instant.
\<close>

record zone =
  LocalTime :: "int \<Rightarrow> int"
  UTC :: "int \<Rightarrow> int"

definition msPerDay :: int where
  "msPerDay = 86400000"

text \<open>
  \<^verbatim>\<open>d.toDateString()\<close> names the local calendar day of an instant and nothing else; the
  model takes the number of that day for the string. \<^verbatim>\<open>d.setDate(d.getDate() - n)\<close>
  moves the local time back by \<open>n\<close> calendar days and converts back.
  \<^verbatim>\<open>d.toISOString().split('T')[0]\<close> is the calendar day in universal time.
\<close>

definition toDateString :: "zone \<Rightarrow> int \<Rightarrow> int" where
  "toDateString z t = LocalTime z t div msPerDay"

text \<open>
  \<^verbatim>\<open>new Date(s).getTime()\<close> on the date string of a day is the instant of local midnight
  of the day that the runtime reads from the string. From the year 100 on, that is the day
  itself. How a year below 100 is read is left to the runtime by the language (one
  runtime reads the years 0 to 49 as 2000 to 2049 and the years 50 to 99 as 1950 to 1999):
  the model takes the day read as the parameter \<open>legacy\<close>. Day \<open>-683003\<close> is 1 January of
  the year 100.
\<close>

definition year100 :: int where
  "year100 = - 683003"

definition parseDateString :: "zone \<Rightarrow> (int \<Rightarrow> int) \<Rightarrow> int \<Rightarrow> int" where
  "parseDateString z legacy d = UTC z ((if d < year100 then legacy d else d) * msPerDay)"

definition setDateBack :: "zone \<Rightarrow> int \<Rightarrow> nat \<Rightarrow> int" where
  "setDateBack z t n = UTC z (LocalTime z t - int n * msPerDay)"

definition toISODate :: "int \<Rightarrow> int" where
  "toISODate t = t div msPerDay"

text \<open>A zone with one offset from universal time, in milliseconds, all year.\<close>

definition fixed_zone :: "int \<Rightarrow> zone" where
  "fixed_zone off = \<lparr>LocalTime = (\<lambda>t. t + off), UTC = (\<lambda>l. l - off)\<rparr>"

text \<open>
  US Eastern time around its change of 9 March 2025: five hours behind universal time
  before 07:00 UTC of that day (instant 1741503600000), four hours behind from then on.
  A local time that the change skips is read with the offset before the change.
\<close>

definition us_eastern_2025 :: zone where
  "us_eastern_2025 =
     \<lparr>LocalTime = (\<lambda>t. if t < 1741503600000 then t - 18000000 else t - 14400000),
      UTC = (\<lambda>l. if 1741503600000 \<le> l + 14400000 then l + 14400000 else l + 18000000)\<rparr>"

section \<open>Dashboard: \<^verbatim>\<open>fetchStats\<close> and \<^verbatim>\<open>calculateStreak\<close>\<close>

text \<open>
  The query of \<^verbatim>\<open>fetchStats\<close> over the rows of the signed-in user:
  \<^verbatim>\<open>.eq('status', 'Solved').not('solved_at', 'is', null)\<close>.
\<close>

definition solvedProblems :: "int problem_row list \<Rightarrow> int problem_row list" where
  "solvedProblems table = filter (\<lambda>p. status p = ''Solved'' \<and> solved_at p \<noteq> None) table"

definition sevenDaysAgo :: "zone \<Rightarrow> int \<Rightarrow> int" where
  "sevenDaysAgo z now = setDateBack z now 7"

definition last7Days :: "zone \<Rightarrow> int \<Rightarrow> int problem_row list \<Rightarrow> nat" where
  "last7Days z now table =
     length (filter (\<lambda>p. case solved_at p of None \<Rightarrow> False | Some t \<Rightarrow> sevenDaysAgo z now \<le> t)
               (solvedProblems table))"

text \<open>\<^verbatim>\<open>[...new Set(xs)]\<close>: the first occurrence of each element, in order.\<close>

definition newSet :: "'a list \<Rightarrow> 'a list" where
  "newSet xs = foldl (\<lambda>seen x. if x \<in> set seen then seen else seen @ [x]) [] xs"

text \<open>
  The loop \<^verbatim>\<open>for (let i = 1; i < uniqueDates.length; i++)\<close>. The two operands of the
  division are integers below \<open>2^53\<close>, so \<^verbatim>\<open>diffDays === 1\<close> holds exactly when their
  difference is \<^verbatim>\<open>1000 * 3600 * 24\<close>.
\<close>

fun countConsecutive :: "zone \<Rightarrow> (int \<Rightarrow> int) \<Rightarrow> int list \<Rightarrow> nat \<Rightarrow> nat" where
  "countConsecutive z legacy (prevDate # currDate # rest) streak =
     (if parseDateString z legacy prevDate - parseDateString z legacy currDate = 1000 * 3600 * 24
      then countConsecutive z legacy (currDate # rest) (streak + 1)
      else streak)"
| "countConsecutive z legacy uniqueDates streak = streak"

text \<open>
  \<^verbatim>\<open>calculateStreak\<close>, with the clock reading \<open>now\<close> as a parameter. The comparator of
  \<^verbatim>\<open>sort\<close> orders the date strings by their instants, latest first; the sort is stable.
\<close>

definition calculateStreak ::
  "zone \<Rightarrow> (int \<Rightarrow> int) \<Rightarrow> int \<Rightarrow> int problem_row list \<Rightarrow> nat" where
  "calculateStreak z legacy now problems =
     (if length problems = 0 then 0
      else let solvedDates =
                 sort_key (\<lambda>d. - parseDateString z legacy d)
                   (map (\<lambda>p. toDateString z (the (solved_at p)))
                      (filter (\<lambda>p. solved_at p \<noteq> None) problems));
               uniqueDates = newSet solvedDates
           in if length uniqueDates = 0 then 0
              else let today = toDateString z now
                   in if uniqueDates ! 0 = today \<or>
                         uniqueDates ! 0 = toDateString z (now - 86400000)
                      then countConsecutive z legacy uniqueDates 1
                      else 0)"

definition currentStreak ::
  "zone \<Rightarrow> (int \<Rightarrow> int) \<Rightarrow> int \<Rightarrow> int problem_row list \<Rightarrow> nat" where
  "currentStreak z legacy now table = calculateStreak z legacy now (solvedProblems table)"

section \<open>Analytics: \<^verbatim>\<open>activityData\<close>\<close>

record activity =
  date :: int
  solved :: nat

definition solvedCount :: "zone \<Rightarrow> int \<Rightarrow> int problem_row list \<Rightarrow> nat" where
  "solvedCount z d problems =
     length (filter (\<lambda>p. case solved_at p of
                            None \<Rightarrow> False
                          | Some t \<Rightarrow> toDateString z t = toDateString z d) problems)"

definition activityData :: "zone \<Rightarrow> int \<Rightarrow> int problem_row list \<Rightarrow> activity list" where
  "activityData z today problems =
     map (\<lambda>i. let d = setDateBack z today i
              in \<lparr>date = toISODate d, solved = solvedCount z d problems\<rparr>)
         (rev [0..<30])"

section \<open>Notions the claims are stated with\<close>

text \<open>
  The number of commas of a line that lie outside quoted regions, a quoted region running
  from one double quote to the next.
\<close>

fun commas_outside :: "bool \<Rightarrow> string \<Rightarrow> nat" where
  "commas_outside inQuotes [] = 0"
| "commas_outside inQuotes (c # cs) =
     (if c = dquote then commas_outside (\<not> inQuotes) cs
      else if c = comma \<and> \<not> inQuotes then Suc (commas_outside inQuotes cs)
      else commas_outside inQuotes cs)"

text \<open>
  The header line as the specification words it: split at the commas outside quotes, each
  name trimmed and freed of its surrounding quotes.
\<close>

fun split_outside_quotes :: "bool \<Rightarrow> string \<Rightarrow> string list" where
  "split_outside_quotes inQuotes [] = [[]]"
| "split_outside_quotes inQuotes (c # cs) =
     (if c = comma \<and> \<not> inQuotes then [] # split_outside_quotes inQuotes cs
      else (case split_outside_quotes (if c = dquote then \<not> inQuotes else inQuotes) cs of
              piece # pieces \<Rightarrow> (c # piece) # pieces
            | [] \<Rightarrow> [[c]]))"

definition strip_surrounding_quotes :: "string \<Rightarrow> string" where
  "strip_surrounding_quotes s =
     (if 2 \<le> length s \<and> hd s = dquote \<and> last s = dquote then butlast (tl s) else s)"

definition spec_headers :: "string \<Rightarrow> string list" where
  "spec_headers line =
     map (\<lambda>h. strip_surrounding_quotes (trim h)) (split_outside_quotes False line)"

text \<open>No comma of the line lies inside a quoted region.\<close>

fun no_quoted_comma :: "bool \<Rightarrow> string \<Rightarrow> bool" where
  "no_quoted_comma inQuotes [] = True"
| "no_quoted_comma inQuotes (c # cs) =
     (if c = dquote then no_quoted_comma (\<not> inQuotes) cs
      else if c = comma \<and> inQuotes then False
      else no_quoted_comma inQuotes cs)"

text \<open>A text value without comma, double quote and newline; a value that trimming leaves as it is.\<close>

definition csv_plain :: "string \<Rightarrow> bool" where
  "csv_plain s = (comma \<notin> set s \<and> dquote \<notin> set s \<and> newline \<notin> set s)"

definition trimmed :: "string \<Rightarrow> bool" where
  "trimmed s = (trim s = s)"

text \<open>
  The streak as the specification words it, on calendar days: \<open>D\<close> is the list of the
  distinct days with a solved record, latest first; the run counts the entries that lie
  exactly one day before their predecessor, up to the first that does not.
\<close>

definition solved_days :: "zone \<Rightarrow> int problem_row list \<Rightarrow> int list" where
  "solved_days z table =
     rev (sort (remdups (map (\<lambda>p. toDateString z (the (solved_at p))) (solvedProblems table))))"

fun consecutive_days :: "int list \<Rightarrow> nat" where
  "consecutive_days (d # e # rest) =
     (if d - e = 1 then Suc (consecutive_days (e # rest)) else 0)"
| "consecutive_days ds = 0"

definition spec_streak :: "zone \<Rightarrow> int \<Rightarrow> int problem_row list \<Rightarrow> nat" where
  "spec_streak z now table =
     (let D = solved_days z table; today = toDateString z now
      in if D = [] then 0
         else if hd D = today \<or> hd D = today - 1 then Suc (consecutive_days D)
         else 0)"

text \<open>
  The last-7-days count as the specification words it: the solved records whose instant
  lies in the window of seven times 24 hours that ends at \<open>now\<close>, both ends included.
\<close>

definition spec_last7Days :: "int \<Rightarrow> int problem_row list \<Rightarrow> nat" where
  "spec_last7Days now table =
     length (filter (\<lambda>p. status p = ''Solved'' \<and>
                          (case solved_at p of
                             None \<Rightarrow> False
                           | Some t \<Rightarrow> now - 7 * msPerDay \<le> t \<and> t \<le> now)) table)"

text \<open>
  The text columns of a row, the optional ones when they are not \<^verbatim>\<open>null\<close>, and its two
  exported timestamps.
\<close>

fun present :: "'a option \<Rightarrow> 'a list" where
  "present None = []"
| "present (Some x) = [x]"

definition text_fields :: "string problem_row \<Rightarrow> string list" where
  "text_fields r =
     [title r, platform r, difficulty r, topic r, status r] @
     present (problem_url r) @ present (solution_url r) @ present (notes r)"

definition timestamp_fields :: "string problem_row \<Rightarrow> string list" where
  "timestamp_fields r = present (solved_at r) @ [created_at r]"

text \<open>
  A row for the statistics, which read its status and its solved_at only.
\<close>

definition stat_row :: "string \<Rightarrow> int option \<Rightarrow> int problem_row" where
  "stat_row st t =
     \<lparr>row_id = [], user_id = [], title = ''T'', platform = ''P'', difficulty = ''Easy'',
      topic = ''A'', status = st, problem_url = None, solution_url = None, notes = None,
      solved_at = t, created_at = 0, updated_at = 0\<rparr>"

section \<open>The quote-aware splitter\<close>

lemma dquote_neq_comma: "dquote \<noteq> comma"
  by (simp add: dquote_def comma_def)

lemma length_parse_loop:
  "length (parse_loop line result current inQuotes) =
     length result + Suc (commas_outside inQuotes line)"
proof (induction line result current inQuotes rule: parse_loop.induct)
  case (1 result current inQuotes)
  show ?case by simp
next
  case (2 c cs result current inQuotes)
  show ?case
  proof (cases "c = dquote")
    case True
    then show ?thesis
      using "2.IH"(1,2,3) by (cases cs) (auto simp: dquote_neq_comma)
  next
    case False
    then show ?thesis
      using "2.IH"(4,5) by auto
  qed
qed



text \<open>
  Claim C10. For every line, the empty one included, \<^verbatim>\<open>parseCSVLine\<close> returns a non-empty
  list of fields: one more than the number of commas outside quoted regions, and the single
  field \<open>""\<close> for the empty line. So the import loop never takes the branch
  \<^verbatim>\<open>if (values.length === 0) continue\<close>: each step of the loop is decided by the
  validation of the row alone.
\<close>

theorem parseCSVLine_nonempty:
  "parseCSVLine line \<noteq> []
   \<and> length (parseCSVLine line) = Suc (commas_outside False line)
   \<and> parseCSVLine [] = [[]]
   \<and> importRows date_ok uid headers i (line # rest) =
       (let later = importRows date_ok uid headers (i + 1) rest;
            problem = buildProblem date_ok uid headers (parseCSVLine line)
        in if rowInvalid problem then (fst later, (i + 1) # snd later)
           else (problem # fst later, snd later))"
proof -
  have len: "length (parseCSVLine line) = Suc (commas_outside False line)"
    by (simp add: parseCSVLine_def length_parse_loop)
  then have ne: "parseCSVLine line \<noteq> []" by auto
  have e: "parseCSVLine [] = [[]]" by (simp add: parseCSVLine_def)
  from len ne e show ?thesis by (simp add: Let_def)
qed

theorem parseCSVLine_nonempty_witness:
  "parseCSVLine ''a,\"b,c\",d'' = [''a'', ''b,c'', ''d'']
   \<and> commas_outside False ''a,\"b,c\",d'' = 2"
  using parseCSVLine_nonempty [of "''a,\"b,c\",d''"]
  by (simp add: parseCSVLine_def dquote_def comma_def)


section \<open>Escaping on export\<close>

lemma double_quotes_Cons:
  "double_quotes (c # s) = (if c = dquote then [dquote, dquote] else [c]) @ double_quotes s"
  by (simp add: double_quotes_def)

lemma parse_loop_quoted:
  "rest = [] \<or> hd rest \<noteq> dquote \<Longrightarrow>
   parse_loop (double_quotes s @ dquote # rest) result current True =
   parse_loop rest result (current @ s) False"
proof (induction s arbitrary: current)
  case Nil
  then show ?case by (cases rest) (auto simp: double_quotes_def)
next
  case (Cons c s)
  show ?case
  proof (cases "c = dquote")
    case True
    with Cons.IH [OF Cons.prems, of "current @ [dquote]"] show ?thesis
      by (simp add: double_quotes_Cons)
  next
    case False
    with Cons.IH [OF Cons.prems, of "current @ [c]"] show ?thesis
      by (simp add: double_quotes_Cons)
  qed
qed

lemma parse_loop_plain:
  "comma \<notin> set s \<Longrightarrow> dquote \<notin> set s \<Longrightarrow>
   parse_loop (s @ rest) result current inQuotes = parse_loop rest result (current @ s) inQuotes"
  by (induction s arbitrary: current) auto

lemma parseCSVLine_escapeField: "parseCSVLine (escapeField (Some v)) = [v]"
proof (cases "comma \<in> set v \<or> dquote \<in> set v \<or> newline \<in> set v")
  case True
  have "parse_loop (dquote # double_quotes v @ [dquote]) [] [] False =
        parse_loop (double_quotes v @ [dquote]) [] [] True"
    by (cases "double_quotes v @ [dquote]") auto
  also have "\<dots> = parse_loop [] [] ([] @ v) False"
    using parse_loop_quoted [of "[]" v "[]" "[]"] by simp
  finally show ?thesis
    using True by (simp add: parseCSVLine_def escapeField_def)
next
  case False
  then show ?thesis
    using parse_loop_plain [of v "[]" "[]" "[]" False]
    by (simp add: parseCSVLine_def escapeField_def)
qed

text \<open>
  Claim C2. The export text is the header line followed by one line per record, each the
  ten column values in the fixed order, joined by commas. A \<^verbatim>\<open>null\<close> or \<^verbatim>\<open>undefined\<close>
  value gives the empty field; any other value is wrapped in double quotes, with every double
  quote inside it doubled, exactly when it contains a comma, a double quote or a newline,
  and is written bare otherwise. The quote-aware splitter reads every such field back as the
  value. A record with the title \<^verbatim>\<open>A, "B" C\<close> has the title field \<^verbatim>\<open>"A, ""B"" C"\<close>.
\<close>

theorem export_escaping:
  "csvContent data =
     join [newline] (join [comma] exportHeaders #
       map (\<lambda>problem. join [comma] (map (\<lambda>header.
              case column problem header of
                None \<Rightarrow> []
              | Some v \<Rightarrow>
                  if comma \<in> set v \<or> dquote \<in> set v \<or> newline \<in> set v
                  then [dquote] @ concat (map (\<lambda>c. if c = dquote then [dquote, dquote] else [c]) v) @ [dquote]
                  else v) exportHeaders)) data)
   \<and> length exportHeaders = 10
   \<and> parseCSVLine (escapeField (Some v)) = [v]
   \<and> map (\<lambda>header. escapeField (column (problem\<lparr>title := ''A, \"B\" C''\<rparr>) header)) exportHeaders ! 0
       = ''\"A, \"\"B\"\" C\"''"
proof -
  have a: "exportRow = (\<lambda>problem. join [comma] (map (\<lambda>header.
              case column problem header of
                None \<Rightarrow> []
              | Some v \<Rightarrow>
                  if comma \<in> set v \<or> dquote \<in> set v \<or> newline \<in> set v
                  then [dquote] @ concat (map (\<lambda>c. if c = dquote then [dquote, dquote] else [c]) v) @ [dquote]
                  else v) exportHeaders))"
    unfolding exportRow_def escapeField_def double_quotes_def by (rule refl)
  have b: "length exportHeaders = 10"
    by (simp add: exportHeaders_def)
  have c: "map (\<lambda>header. escapeField (column (problem\<lparr>title := ''A, \"B\" C''\<rparr>) header)) exportHeaders ! 0
       = ''\"A, \"\"B\"\" C\"''"
    by (simp add: exportHeaders_def column_def escapeField_def double_quotes_def comma_def dquote_def)
  show ?thesis
    unfolding csvContent_def a using b c parseCSVLine_escapeField by simp
qed

theorem export_escaping_witness:
  "csvContent
     [\<lparr>row_id = ''1'', user_id = ''u'', title = ''A, \"B\" C'', platform = ''LeetCode'',
       difficulty = ''Easy'', topic = ''Arrays'', status = ''Solved'', problem_url = None,
       solution_url = Some ''x'', notes = None, solved_at = None, created_at = ''c'',
       updated_at = ''d''\<rparr>] =
     ''title,platform,difficulty,topic,status,problem_url,solution_url,notes,solved_at,created_at'' @
     [newline] @ ''\"A, \"\"B\"\" C\",LeetCode,Easy,Arrays,Solved,,x,,,c''"
  using export_escaping
    [of "[\<lparr>row_id = ''1'', user_id = ''u'', title = ''A, \"B\" C'', platform = ''LeetCode'',
       difficulty = ''Easy'', topic = ''Arrays'', status = ''Solved'', problem_url = None,
       solution_url = Some ''x'', notes = None, solved_at = None, created_at = ''c'',
       updated_at = ''d''\<rparr>]"]
  by (simp add: exportHeaders_def column_def comma_def dquote_def newline_def)

section \<open>The rows of an import\<close>




section \<open>Coercion of the fields of a row\<close>

lemma setField_unknown:
  "h \<notin> set [''title'', ''platform'', ''topic'', ''difficulty'', ''status'', ''problem_url'',
              ''solution_url'', ''notes'', ''solved_at''] \<Longrightarrow> setField date_ok h v p = p"
  by (simp add: setField_def)

lemma setField_known:
  "h \<in> set [''title'', ''platform'', ''topic'', ''difficulty'', ''status'', ''problem_url'',
              ''solution_url'', ''notes'', ''solved_at''] \<Longrightarrow>
   setField date_ok h v p = AList.update h (the (map_of (setField date_ok h v []) h)) p"
proof -
  assume "h \<in> set [''title'', ''platform'', ''topic'', ''difficulty'', ''status'', ''problem_url'',
              ''solution_url'', ''notes'', ''solved_at'']"
  then have "h = ''title'' \<or> h = ''platform'' \<or> h = ''topic'' \<or> h = ''difficulty'' \<or>
     h = ''status'' \<or> h = ''problem_url'' \<or> h = ''solution_url'' \<or> h = ''notes'' \<or>
     h = ''solved_at''"
    by simp
  then show ?thesis
    by (elim disjE) (simp_all add: setField_def)
qed

lemma map_of_setField_other:
  "h \<noteq> h' \<Longrightarrow> map_of (setField date_ok h' v p) h = map_of p h"
proof (cases "h' \<in> set [''title'', ''platform'', ''topic'', ''difficulty'', ''status'', ''problem_url'',
              ''solution_url'', ''notes'', ''solved_at'']")
  case True
  assume "h \<noteq> h'"
  then show ?thesis
    by (subst setField_known [OF True]) (simp add: update_conv')
next
  case False
  show ?thesis
    by (subst setField_unknown [OF False]) (rule refl)
qed

lemma setField_twice:
  "map_of (setField date_ok h v (setField date_ok h' v' p)) h = map_of (setField date_ok h v p) h"
proof (cases "h \<in> set [''title'', ''platform'', ''topic'', ''difficulty'', ''status'', ''problem_url'',
              ''solution_url'', ''notes'', ''solved_at'']")
  case True
  have "\<exists>x. \<forall>q. map_of (setField date_ok h v q) h = Some x"
    by (subst setField_known [OF True]) (simp add: update_conv')
  then obtain x where "\<And>q. map_of (setField date_ok h v q) h = Some x"
    by blast
  then show ?thesis by simp
next
  case False
  have id: "\<And>w q. setField date_ok h w q = q"
    by (rule setField_unknown [OF False])
  have "map_of (setField date_ok h' v' p) h = map_of p h"
  proof (cases "h = h'")
    case True
    with id [of v' p] show ?thesis by simp
  next
    case False
    then show ?thesis by (rule map_of_setField_other)
  qed
  then show ?thesis by (simp only: id)
qed

lemma forEachHeader_absent:
  "h \<notin> set hs \<Longrightarrow> map_of (forEachHeader date_ok hs i vals p) h = map_of p h"
proof (induction hs arbitrary: i p)
  case Nil
  show ?case by simp
next
  case (Cons h' hs)
  then have "h \<noteq> h'" "h \<notin> set hs" by auto
  then show ?case
    by (simp add: Cons.IH map_of_setField_other)
qed

lemma forEachHeader_last:
  "k < length hs \<Longrightarrow> hs ! k = h \<Longrightarrow> h \<notin> set (drop (Suc k) hs) \<Longrightarrow>
   map_of (forEachHeader date_ok hs i vals p) h =
   map_of (setField date_ok h (if i + k < length vals then trim (vals ! (i + k)) else []) p) h"
proof (induction hs arbitrary: i k p)
  case Nil
  then show ?case by simp
next
  case (Cons h' hs)
  show ?case
  proof (cases k)
    case 0
    with Cons.prems have "h' = h" "h \<notin> set hs" by simp_all
    then show ?thesis
      using 0 by (simp add: forEachHeader_absent)
  next
    case (Suc k')
    with Cons.prems have "k' < length hs" "hs ! k' = h" "h \<notin> set (drop (Suc k') hs)"
      by simp_all
    from Cons.IH [OF this, of "i + 1"] show ?thesis
      using Suc by (simp add: setField_twice)
  qed
qed

lemma stored_text:
  "h = ''title'' \<or> h = ''platform'' \<or> h = ''topic'' \<Longrightarrow>
   map_of (setField date_ok h v p) h = Some (Some v)"
  by (auto simp: setField_def update_conv')

lemma stored_difficulty:
  "map_of (setField date_ok ''difficulty'' v p) ''difficulty'' =
     Some (Some (if v = ''Easy'' \<or> v = ''Medium'' \<or> v = ''Hard'' then v else ''Easy''))"
  by (simp add: setField_def update_conv')

lemma stored_status:
  "map_of (setField date_ok ''status'' v p) ''status'' =
     Some (Some (if v = ''Todo'' \<or> v = ''In Progress'' \<or> v = ''Solved'' \<or> v = ''Reviewed''
                 then v else ''Todo''))"
  by (simp add: setField_def update_conv')

lemma stored_optional:
  "h = ''problem_url'' \<or> h = ''solution_url'' \<or> h = ''notes'' \<Longrightarrow>
   map_of (setField date_ok h v p) h = Some (if v = [] then None else Some v)"
  by (auto simp: setField_def update_conv')

lemma stored_solved_at:
  "map_of (setField date_ok ''solved_at'' v p) ''solved_at'' =
     Some (if v \<noteq> [] \<and> date_ok v then Some v else None)"
  by (simp add: setField_def update_conv')

lemma setField_user_id:
  "map_of (setField date_ok h v p) ''user_id'' = map_of p ''user_id''"
proof (cases "h = ''user_id''")
  case True
  have "setField date_ok ''user_id'' v p = p"
    by (rule setField_unknown) simp
  with True show ?thesis by simp
next
  case False
  then have "''user_id'' \<noteq> h" by simp
  then show ?thesis by (rule map_of_setField_other)
qed

lemma forEachHeader_user_id:
  "map_of (forEachHeader date_ok hs i vals p) ''user_id'' = map_of p ''user_id''"
  by (induction hs arbitrary: i p) (simp_all add: setField_user_id)

text \<open>
  Claim C5, as the code has it. Every value of a data row is trimmed before it is used, and
  a value the row lacks reads as the empty string. For the last header of a name, with \<open>v\<close>
  the trimmed value at its position: title, platform and topic store \<open>v\<close>, the empty string
  included; difficulty stores \<open>v\<close> when it is Easy, Medium or Hard and Easy otherwise;
  status stores \<open>v\<close> when it is Todo, In Progress, Solved or Reviewed and Todo otherwise;
  problem_url, solution_url and notes store \<open>v\<close>, or \<^verbatim>\<open>null\<close> when \<open>v\<close> is empty;
  solved_at stores \<open>v\<close> when it is non-empty and parses as a date, and \<^verbatim>\<open>null\<close> otherwise.
  The value under any other header is ignored: the header leaves no property of its name,
  and under the header user_id the owner stays the signed-in user. The owner is the
  signed-in user in every row, and a name that is no header is no property.
\<close>

theorem import_coercion:
  fixes date_ok :: "string \<Rightarrow> bool" and uid h :: string and headers vals :: "string list" and k :: nat
  assumes "k < length headers" and "headers ! k = h" and "h \<notin> set (drop (Suc k) headers)"
  defines "v \<equiv> (if k < length vals then trim (vals ! k) else [])"
  defines "stored \<equiv> map_of (buildProblem date_ok uid headers vals) h"
  shows "(h = ''title'' \<or> h = ''platform'' \<or> h = ''topic'' \<longrightarrow> stored = Some (Some v))
       \<and> (h = ''difficulty'' \<longrightarrow>
            stored = Some (Some (if v = ''Easy'' \<or> v = ''Medium'' \<or> v = ''Hard'' then v else ''Easy'')))
       \<and> (h = ''status'' \<longrightarrow>
            stored = Some (Some (if v = ''Todo'' \<or> v = ''In Progress'' \<or> v = ''Solved'' \<or> v = ''Reviewed''
                                 then v else ''Todo'')))
       \<and> (h = ''problem_url'' \<or> h = ''solution_url'' \<or> h = ''notes'' \<longrightarrow>
            stored = Some (if v = [] then None else Some v))
       \<and> (h = ''solved_at'' \<longrightarrow> stored = Some (if v \<noteq> [] \<and> date_ok v then Some v else None))
       \<and> (h \<notin> set [''title'', ''platform'', ''topic'', ''difficulty'', ''status'', ''problem_url'',
                      ''solution_url'', ''notes'', ''solved_at''] \<longrightarrow>
            stored = (if h = ''user_id'' then Some (Some uid) else None))
       \<and> map_of (buildProblem date_ok uid headers vals) ''user_id'' = Some (Some uid)
       \<and> (\<forall>key. key \<notin> set headers \<and> key \<noteq> ''user_id'' \<longrightarrow>
             map_of (buildProblem date_ok uid headers vals) key = None)"
proof -
  have s: "stored = map_of (setField date_ok h v [(''user_id'', Some uid)]) h"
    using forEachHeader_last [OF assms(1,2,3), of date_ok 0 vals]
    by (simp add: stored_def v_def buildProblem_def)
  have unknown: "stored = (if h = ''user_id'' then Some (Some uid) else None)"
    if "h \<notin> set [''title'', ''platform'', ''topic'', ''difficulty'', ''status'', ''problem_url'',
                      ''solution_url'', ''notes'', ''solved_at'']"
    unfolding s by (subst setField_unknown [OF that]) simp
  have owner: "map_of (buildProblem date_ok uid headers vals) ''user_id'' = Some (Some uid)"
    by (simp add: buildProblem_def forEachHeader_user_id)
  have absent: "map_of (buildProblem date_ok uid headers vals) key = None"
    if "key \<notin> set headers \<and> key \<noteq> ''user_id''" for key
    using that by (simp add: buildProblem_def forEachHeader_absent)
  show ?thesis
  proof (intro conjI impI allI)
    assume "h = ''title'' \<or> h = ''platform'' \<or> h = ''topic''"
    then show "stored = Some (Some v)"
      unfolding s by (rule stored_text)
  next
    assume "h = ''difficulty''"
    then show "stored = Some (Some (if v = ''Easy'' \<or> v = ''Medium'' \<or> v = ''Hard'' then v else ''Easy''))"
      unfolding s by (simp only: stored_difficulty)
  next
    assume "h = ''status''"
    then show "stored = Some (Some (if v = ''Todo'' \<or> v = ''In Progress'' \<or> v = ''Solved'' \<or> v = ''Reviewed''
                                 then v else ''Todo''))"
      unfolding s by (simp only: stored_status)
  next
    assume "h = ''problem_url'' \<or> h = ''solution_url'' \<or> h = ''notes''"
    then show "stored = Some (if v = [] then None else Some v)"
      unfolding s by (rule stored_optional)
  next
    assume "h = ''solved_at''"
    then show "stored = Some (if v \<noteq> [] \<and> date_ok v then Some v else None)"
      unfolding s by (simp only: stored_solved_at)
  next
    assume "h \<notin> set [''title'', ''platform'', ''topic'', ''difficulty'', ''status'', ''problem_url'',
                      ''solution_url'', ''notes'', ''solved_at'']"
    then show "stored = (if h = ''user_id'' then Some (Some uid) else None)"
      by (rule unknown)
  next
    show "map_of (buildProblem date_ok uid headers vals) ''user_id'' = Some (Some uid)"
      by (rule owner)
  next
    fix key
    assume "key \<notin> set headers \<and> key \<noteq> ''user_id''"
    then show "map_of (buildProblem date_ok uid headers vals) key = None"
      by (rule absent)
  qed
qed

theorem import_coercion_witness:
  "map_of (buildProblem (\<lambda>s. True) ''u''
             [''title'', ''platform'', ''difficulty'', ''topic'', ''status'', ''user_id'']
             ['' Two Sum '', ''LeetCode'', ''Tricky'', ''Arrays'', '' Solved'', ''mallory''])
          ''status'' = Some (Some ''Solved'')
   \<and> map_of (buildProblem (\<lambda>s. True) ''u''
             [''title'', ''platform'', ''difficulty'', ''topic'', ''status'', ''user_id'']
             ['' Two Sum '', ''LeetCode'', ''Tricky'', ''Arrays'', '' Solved'', ''mallory''])
          ''user_id'' = Some (Some ''u'')"
  using import_coercion
    [where k = 4 and h = "''status''" and date_ok = "\<lambda>s. True" and uid = "''u''"
       and headers = "[''title'', ''platform'', ''difficulty'', ''topic'', ''status'', ''user_id'']"
       and vals = "['' Two Sum '', ''LeetCode'', ''Tricky'', ''Arrays'', '' Solved'', ''mallory'']"]
  by (simp add: trim_def is_ws_def)

text \<open>
  The title is not the parsed value itself: the row \<^verbatim>\<open> A,P,Easy,T\<close> has the parsed value
  \<^verbatim>\<open> A\<close> under title, and the title stored is \<^verbatim>\<open>A\<close>.
\<close>

theorem title_verbatim_counterexample:
  "parseCSVLine '' A,P,Easy,T'' ! 0 = '' A''
   \<and> map_of (buildProblem (\<lambda>s. True) ''u'' [''title'', ''platform'', ''difficulty'', ''topic'']
               (parseCSVLine '' A,P,Easy,T'')) ''title'' = Some (Some ''A'')
   \<and> map_of (buildProblem (\<lambda>s. True) ''u'' [''title'', ''platform'', ''difficulty'', ''topic'']
               (parseCSVLine '' A,P,Easy,T'')) ''title''
       \<noteq> Some (Some (parseCSVLine '' A,P,Easy,T'' ! 0))"
  by (simp add: parseCSVLine_def buildProblem_def setField_def comma_def dquote_def trim_def is_ws_def)

section \<open>Skipped rows\<close>






section \<open>The header line\<close>

lemma split_on_not_Nil: "split_on sep s \<noteq> []"
  by (induction s) (auto split: list.splits)

lemma split_outside_quotes_plain:
  "no_quoted_comma inQuotes s \<Longrightarrow> split_outside_quotes inQuotes s = split_on comma s"
proof (induction s arbitrary: inQuotes)
  case Nil
  show ?case by simp
next
  case (Cons c s)
  show ?case
  proof (cases "c = dquote")
    case True
    with Cons.prems have "no_quoted_comma (\<not> inQuotes) s" by simp
    from Cons.IH [OF this] True show ?thesis
      by (simp add: dquote_neq_comma)
  next
    case False
    show ?thesis
    proof (cases "c = comma")
      case True
      with Cons.prems \<open>c \<noteq> dquote\<close> have "\<not> inQuotes" "no_quoted_comma inQuotes s"
        by (auto split: if_splits)
      with Cons.IH [of inQuotes] True show ?thesis by simp
    next
      case False
      with Cons.prems \<open>c \<noteq> dquote\<close> have "no_quoted_comma inQuotes s" by simp
      from Cons.IH [OF this] False \<open>c \<noteq> dquote\<close> show ?thesis by simp
    qed
  qed
qed

lemma remove_quotes_free: "dquote \<notin> set (remove_quotes s)"
  by (simp add: remove_quotes_def)

lemma remove_quotes_id: "dquote \<notin> set s \<Longrightarrow> remove_quotes s = s"
  by (auto simp: remove_quotes_def filter_id_conv)

lemma remove_quotes_surrounding:
  assumes "dquote \<notin> set (strip_surrounding_quotes s)"
  shows "remove_quotes s = strip_surrounding_quotes s"
proof (cases "2 \<le> length s \<and> hd s = dquote \<and> last s = dquote")
  case True
  then obtain t where t: "s = dquote # t" and "t \<noteq> []" and "last t = dquote"
    by (cases s) (auto split: if_splits)
  then have s: "s = dquote # butlast t @ [dquote]"
    using append_butlast_last_id [of t] by simp
  with assms have "dquote \<notin> set (butlast t)"
    by (simp add: strip_surrounding_quotes_def)
  then show ?thesis
    by (subst (1 2) s) (auto simp: strip_surrounding_quotes_def remove_quotes_def filter_id_conv)
next
  case False
  then have "strip_surrounding_quotes s = s"
    unfolding strip_surrounding_quotes_def by (rule if_not_P)
  with assms show ?thesis
    by (simp add: remove_quotes_id)
qed

text \<open>
  Claim C9, as the code has it by design. For a first line with no comma inside a quoted
  region, the header names are the pieces between the commas outside quotes, each trimmed
  and then freed of every double quote, not only of a surrounding pair. So no header name
  contains a double quote, and where the trimmed pieces carry quotes only as a surrounding
  pair the names are those the specification describes.
\<close>

theorem header_names:
  assumes "no_quoted_comma False line"
  shows "parseHeaders line = map (\<lambda>h. remove_quotes (trim h)) (split_outside_quotes False line)
       \<and> (\<forall>name \<in> set (parseHeaders line). dquote \<notin> set name)
       \<and> ((\<forall>h \<in> set (split_outside_quotes False line). dquote \<notin> set (strip_surrounding_quotes (trim h)))
            \<longrightarrow> parseHeaders line = spec_headers line)"
proof -
  have a: "parseHeaders line = map (\<lambda>h. remove_quotes (trim h)) (split_outside_quotes False line)"
    using assms by (simp add: parseHeaders_def split_outside_quotes_plain)
  have b: "\<forall>name \<in> set (parseHeaders line). dquote \<notin> set name"
    by (auto simp: parseHeaders_def remove_quotes_free)
  have c: "parseHeaders line = spec_headers line"
    if "\<forall>h \<in> set (split_outside_quotes False line). dquote \<notin> set (strip_surrounding_quotes (trim h))"
    unfolding a spec_headers_def using that by (simp add: remove_quotes_surrounding)
  from a b c show ?thesis by blast
qed

theorem header_names_witness:
  "parseHeaders '' \"title\",platform , difficulty,\"topic\"'' = [''title'', ''platform'', ''difficulty'', ''topic'']
   \<and> spec_headers '' \"title\",platform , difficulty,\"topic\"'' = [''title'', ''platform'', ''difficulty'', ''topic'']"
proof -
  have h: "no_quoted_comma False '' \"title\",platform , difficulty,\"topic\"''"
    by (simp add: comma_def dquote_def)
  from header_names [OF h] show ?thesis
    by (simp add: parseHeaders_def spec_headers_def trim_def is_ws_def remove_quotes_def
        strip_surrounding_quotes_def comma_def dquote_def)
qed

text \<open>
  A quoted header with a comma gives two names, and a quote inside a name is lost.
\<close>

theorem header_names_counterexample:
  "parseHeaders ''\"a,b\",c'' = [''a'', ''b'', ''c'']
   \<and> spec_headers ''\"a,b\",c'' = [''a,b'', ''c'']
   \<and> parseHeaders ''ti\"tle'' = [''title'']
   \<and> spec_headers ''ti\"tle'' = [''ti\"tle'']"
  by (simp add: parseHeaders_def spec_headers_def strip_surrounding_quotes_def remove_quotes_def
      trim_def is_ws_def comma_def dquote_def)

section \<open>Failures of an import\<close>






section \<open>Export followed by import\<close>

lemma split_on_none: "sep \<notin> set a \<Longrightarrow> split_on sep a = [a]"
  by (induction a) auto

lemma split_on_append:
  "sep \<notin> set a \<Longrightarrow> split_on sep (a @ sep # b) = a # split_on sep b"
  by (induction a) auto

lemma parse_loop_fields:
  "list_all (\<lambda>f. comma \<notin> set f \<and> dquote \<notin> set f) (f # fs) \<Longrightarrow>
   parse_loop (join [comma] (f # fs)) result current False = result @ (current @ f) # fs"
proof (induction fs arbitrary: f result current)
  case Nil
  then show ?case
    using parse_loop_plain [of f "[]" result current False] by simp
next
  case (Cons g gs)
  then have f: "comma \<notin> set f" "dquote \<notin> set f"
    and rest: "list_all (\<lambda>f. comma \<notin> set f \<and> dquote \<notin> set f) (g # gs)"
    by simp_all
  have "parse_loop (join [comma] (f # g # gs)) result current False =
        parse_loop (comma # join [comma] (g # gs)) result (current @ f) False"
    using parse_loop_plain [OF f] by simp
  also have "\<dots> = parse_loop (join [comma] (g # gs)) (result @ [current @ f]) [] False"
    by (simp add: dquote_neq_comma [symmetric])
  also have "\<dots> = (result @ [current @ f]) @ ([] @ g) # gs"
    by (rule Cons.IH [OF rest])
  finally show ?case by simp
qed

lemma parseCSVLine_join:
  "list_all (\<lambda>f. comma \<notin> set f \<and> dquote \<notin> set f) fs \<Longrightarrow> fs \<noteq> [] \<Longrightarrow>
   parseCSVLine (join [comma] fs) = fs"
  using parse_loop_fields [of "hd fs" "tl fs" "[]" "[]"]
  by (cases fs) (simp_all add: parseCSVLine_def)

lemma trim_Nil: "trim [] = []"
  by (simp add: trim_def)

lemma trim_nonempty: "trimmed s \<Longrightarrow> s \<noteq> [] \<Longrightarrow> \<not> is_ws (hd s)"
proof -
  assume t: "trimmed s" and ne: "s \<noteq> []"
  show "\<not> is_ws (hd s)"
  proof
    assume ws: "is_ws (hd s)"
    from ne obtain c cs where s: "s = c # cs" by (cases s) auto
    with ws have "length (dropWhile is_ws s) \<le> length cs"
      by (simp add: length_dropWhile_le)
    moreover have "length (trim s) \<le> length (dropWhile is_ws s)"
      using length_dropWhile_le [of is_ws "rev (dropWhile is_ws s)"] by (simp add: trim_def)
    ultimately have "length (trim s) < length s" using s by simp
    with t show False by (simp add: trimmed_def)
  qed
qed

lemma trim_starts_nonblank: "\<not> is_ws c \<Longrightarrow> trim (c # cs) \<noteq> []"
proof -
  assume c: "\<not> is_ws c"
  then have "dropWhile is_ws (rev (c # cs)) \<noteq> []"
    by (auto simp: dropWhile_eq_Nil_conv)
  with c show ?thesis by (simp add: trim_def)
qed

lemma escapeField_plain: "csv_plain s \<Longrightarrow> escapeField (Some s) = s"
  by (simp add: escapeField_def csv_plain_def)

lemma escapeField_present:
  "list_all csv_plain (present x) \<Longrightarrow> csv_plain (escapeField x)"
  by (cases x) (simp_all add: escapeField_plain, simp add: escapeField_def csv_plain_def)

lemma optional_round_trip:
  assumes "list_all csv_plain (present x)" and "list_all trimmed (present x)"
    and "[] \<notin> set (present x)"
  shows "trim (escapeField x) = escapeField x"
    and "(if escapeField x = [] then None else Some (escapeField x)) = x"
proof -
  show "trim (escapeField x) = escapeField x"
  proof (cases x)
    case None
    then show ?thesis by (simp add: escapeField_def trim_Nil)
  next
    case (Some s)
    with assms show ?thesis by (simp add: escapeField_plain trimmed_def)
  qed
  show "(if escapeField x = [] then None else Some (escapeField x)) = x"
  proof (cases x)
    case None
    then show ?thesis by (simp add: escapeField_def)
  next
    case (Some s)
    with assms show ?thesis by (auto simp: escapeField_plain)
  qed
qed

lemma setField_cases:
  "setField date_ok ''title'' v p = AList.update ''title'' (Some v) p"
  "setField date_ok ''platform'' v p = AList.update ''platform'' (Some v) p"
  "setField date_ok ''topic'' v p = AList.update ''topic'' (Some v) p"
  "setField date_ok ''difficulty'' v p =
     AList.update ''difficulty'' (Some (if v \<in> set [''Easy'', ''Medium'', ''Hard''] then v else ''Easy'')) p"
  "setField date_ok ''status'' v p =
     AList.update ''status''
       (Some (if v \<in> set [''Todo'', ''In Progress'', ''Solved'', ''Reviewed''] then v else ''Todo'')) p"
  "setField date_ok ''problem_url'' v p = AList.update ''problem_url'' (if v = [] then None else Some v) p"
  "setField date_ok ''solution_url'' v p = AList.update ''solution_url'' (if v = [] then None else Some v) p"
  "setField date_ok ''notes'' v p = AList.update ''notes'' (if v = [] then None else Some v) p"
  "setField date_ok ''solved_at'' v p =
     AList.update ''solved_at'' (if v \<noteq> [] \<and> date_ok v then Some v else None) p"
  "setField date_ok ''created_at'' v p = p"
  unfolding setField_def by simp_all

lemma buildProblem_exportHeaders:
  "buildProblem date_ok uid exportHeaders [t, p, d, tp, st, u, w, n, sa, c] =
     [(''user_id'', Some uid),
      (''title'', Some (trim t)),
      (''platform'', Some (trim p)),
      (''difficulty'', Some (if trim d \<in> set [''Easy'', ''Medium'', ''Hard''] then trim d else ''Easy'')),
      (''topic'', Some (trim tp)),
      (''status'', Some (if trim st \<in> set [''Todo'', ''In Progress'', ''Solved'', ''Reviewed'']
                         then trim st else ''Todo'')),
      (''problem_url'', if trim u = [] then None else Some (trim u)),
      (''solution_url'', if trim w = [] then None else Some (trim w)),
      (''notes'', if trim n = [] then None else Some (trim n)),
      (''solved_at'', if trim sa \<noteq> [] \<and> date_ok (trim sa) then Some (trim sa) else None)]"
  unfolding buildProblem_def exportHeaders_def
  by (simp add: setField_cases split del: if_split cong: if_cong)

lemma parseHeaders_export: "parseHeaders (join [comma] exportHeaders) = exportHeaders"
  by (simp add: parseHeaders_def exportHeaders_def comma_def trim_def is_ws_def remove_quotes_def dquote_def)

lemma comma_neq_newline: "comma \<noteq> newline"
  by (simp add: comma_def newline_def)

lemma newline_not_in_header: "newline \<notin> set (join [comma] exportHeaders)"
  by (simp add: exportHeaders_def comma_def newline_def)

lemma header_nonblank: "trim (join [comma] exportHeaders) \<noteq> []"
  by (simp add: exportHeaders_def trim_starts_nonblank is_ws_def)

lemma newline_not_in_join:
  "list_all (\<lambda>f. newline \<notin> set f) fs \<Longrightarrow> newline \<notin> set (join [comma] fs)"
  by (induction "[comma]" fs rule: join.induct) (auto simp: comma_neq_newline [symmetric])

lemma no_missing_export: "filter (\<lambda>h. h \<notin> set exportHeaders) requiredHeaders = []"
  by (simp add: exportHeaders_def requiredHeaders_def)

text \<open>
  Claim C1, as the code has it. Take a record of the data model (title, platform and topic
  not empty, difficulty and status among their values) whose text values contain no comma,
  no double quote and no newline, and, beyond what the claim asks, have no white space at
  either end and are not the empty string where they are optional; its two exported
  timestamps are free of the three characters too. Then importing the export of the
  one-element list succeeds with exactly one record, and that record has the title,
  platform, difficulty, topic, status, problem_url, solution_url and notes of the record
  exported. It has no id and no created_at; its solved_at is the trimmed timestamp string
  when that parses as a date, and \<^verbatim>\<open>null\<close> otherwise.
\<close>

theorem export_import_round_trip:
  assumes plain: "list_all csv_plain (text_fields r @ timestamp_fields r)"
    and trimmed: "list_all trimmed (text_fields r)"
    and nonempty: "[] \<notin> set (text_fields r)"
    and diff: "difficulty r \<in> set [''Easy'', ''Medium'', ''Hard'']"
    and stat: "status r \<in> set [''Todo'', ''In Progress'', ''Solved'', ''Reviewed'']"
  shows "handleImport date_ok uid (csvContent [r]) =
     Inr [[(''user_id'', Some uid),
           (''title'', Some (title r)),
           (''platform'', Some (platform r)),
           (''difficulty'', Some (difficulty r)),
           (''topic'', Some (topic r)),
           (''status'', Some (status r)),
           (''problem_url'', problem_url r),
           (''solution_url'', solution_url r),
           (''notes'', notes r),
           (''solved_at'',
              case solved_at r of
                None \<Rightarrow> None
              | Some s \<Rightarrow> if trim s \<noteq> [] \<and> date_ok (trim s) then Some (trim s) else None)]]"
proof -
  define u where "u = escapeField (problem_url r)"
  define w where "w = escapeField (solution_url r)"
  define n where "n = escapeField (notes r)"
  define sa where "sa = escapeField (solved_at r)"
  define fs where "fs = [title r, platform r, difficulty r, topic r, status r, u, w, n, sa, created_at r]"
  define header where "header = join [comma] exportHeaders"
  from plain have p: "csv_plain (title r)" "csv_plain (platform r)" "csv_plain (difficulty r)"
    "csv_plain (topic r)" "csv_plain (status r)" "csv_plain (created_at r)"
    and po: "list_all csv_plain (present (problem_url r))"
      "list_all csv_plain (present (solution_url r))" "list_all csv_plain (present (notes r))"
      "list_all csv_plain (present (solved_at r))"
    by (simp_all add: text_fields_def timestamp_fields_def)
  from trimmed have t: "trim (title r) = title r" "trim (platform r) = platform r"
    "trim (difficulty r) = difficulty r" "trim (topic r) = topic r" "trim (status r) = status r"
    and tt: "trimmed (title r)"
    and to: "list_all trimmed (present (problem_url r))"
      "list_all trimmed (present (solution_url r))"
      "list_all trimmed (present (notes r))"
    by (simp_all add: text_fields_def trimmed_def)
  from nonempty have ne: "title r \<noteq> []" "platform r \<noteq> []" "topic r \<noteq> []"
    and no: "[] \<notin> set (present (problem_url r))" "[] \<notin> set (present (solution_url r))"
      "[] \<notin> set (present (notes r))"
    by (auto simp: text_fields_def)
  have pu: "csv_plain u" "csv_plain w" "csv_plain n" "csv_plain sa"
    unfolding u_def w_def n_def sa_def by (rule escapeField_present, fact)+
  have opt: "trim u = u" "trim w = w" "trim n = n"
    "(if u = [] then None else Some u) = problem_url r"
    "(if w = [] then None else Some w) = solution_url r"
    "(if n = [] then None else Some n) = notes r"
    unfolding u_def w_def n_def
    using optional_round_trip [OF po(1) to(1) no(1)] optional_round_trip [OF po(2) to(2) no(2)]
      optional_round_trip [OF po(3) to(3) no(3)]
    by simp_all
  have solved: "(if trim sa \<noteq> [] \<and> date_ok (trim sa) then Some (trim sa) else None) =
     (case solved_at r of
        None \<Rightarrow> None
      | Some s \<Rightarrow> if trim s \<noteq> [] \<and> date_ok (trim s) then Some (trim s) else None)"
  proof (cases "solved_at r")
    case None
    then show ?thesis by (simp add: sa_def escapeField_def trim_Nil)
  next
    case (Some s)
    with po(4) show ?thesis by (simp add: sa_def escapeField_plain)
  qed
  have row: "exportRow r = join [comma] fs"
    unfolding exportRow_def exportHeaders_def fs_def u_def w_def n_def sa_def
    by (simp add: column_def escapeField_plain p)
  have fs_plain: "list_all (\<lambda>f. comma \<notin> set f \<and> dquote \<notin> set f) fs"
    and fs_line: "list_all (\<lambda>f. newline \<notin> set f) fs"
    using p pu by (simp_all add: fs_def csv_plain_def)
  have parsed: "parseCSVLine (exportRow r) = fs"
    unfolding row by (rule parseCSVLine_join [OF fs_plain]) (simp add: fs_def)
  have content: "csvContent [r] = header @ newline # exportRow r"
    by (simp add: csvContent_def header_def)
  have "split_on newline (csvContent [r]) = [header, exportRow r]"
    unfolding content
    using newline_not_in_header newline_not_in_join [OF fs_line]
    by (simp add: split_on_append split_on_none header_def row)
  moreover have "trim header \<noteq> []"
    unfolding header_def by (rule header_nonblank)
  moreover have "trim (exportRow r) \<noteq> []"
  proof -
    from ne(1) obtain c cs where c: "title r = c # cs" by (cases "title r") auto
    with trim_nonempty [OF tt ne(1)] have "\<not> is_ws c" by simp
    moreover have "exportRow r = c # (cs @ comma # join [comma] (tl fs))"
      unfolding row fs_def by (simp add: c)
    ultimately show ?thesis
      using trim_starts_nonblank [of c "cs @ comma # join [comma] (tl fs)"] by simp
  qed
  ultimately have lines: "nonBlankLines (csvContent [r]) = [header, exportRow r]"
    by (simp add: nonBlankLines_def)
  have built: "buildProblem date_ok uid exportHeaders fs =
     [(''user_id'', Some uid),
      (''title'', Some (title r)),
      (''platform'', Some (platform r)),
      (''difficulty'', Some (difficulty r)),
      (''topic'', Some (topic r)),
      (''status'', Some (status r)),
      (''problem_url'', problem_url r),
      (''solution_url'', solution_url r),
      (''notes'', notes r),
      (''solved_at'',
         case solved_at r of
           None \<Rightarrow> None
         | Some s \<Rightarrow> if trim s \<noteq> [] \<and> date_ok (trim s) then Some (trim s) else None)]"
    unfolding fs_def buildProblem_exportHeaders t opt solved
    using diff stat by simp
  have valid: "\<not> rowInvalid (buildProblem date_ok uid exportHeaders fs)"
    unfolding built using ne diff by (auto simp: rowInvalid_def falsy_def)
  have rows: "importRows date_ok uid exportHeaders (Suc 0) [exportRow r] =
      ([buildProblem date_ok uid exportHeaders fs], [])"
    using valid by (simp add: parsed Let_def fs_def)
  show ?thesis
    unfolding handleImport_def lines
    by (simp add: header_def parseHeaders_export no_missing_export rows built Let_def del: importRows.simps)
qed

theorem export_import_round_trip_witness:
  "handleImport (\<lambda>s. True) ''u''
     (csvContent [\<lparr>row_id = ''1'', user_id = ''u'', title = ''Two Sum'', platform = ''LeetCode'',
        difficulty = ''Medium'', topic = ''Arrays'', status = ''Solved'', problem_url = None,
        solution_url = Some ''https://x.org/s'', notes = Some ''hash map'',
        solved_at = Some ''2025-03-10T12:00:00Z'', created_at = ''2025-03-01T08:00:00Z'',
        updated_at = ''2025-03-10T12:00:00Z''\<rparr>]) =
   Inr [[(''user_id'', Some ''u''), (''title'', Some ''Two Sum''), (''platform'', Some ''LeetCode''),
         (''difficulty'', Some ''Medium''), (''topic'', Some ''Arrays''), (''status'', Some ''Solved''),
         (''problem_url'', None), (''solution_url'', Some ''https://x.org/s''),
         (''notes'', Some ''hash map''), (''solved_at'', Some ''2025-03-10T12:00:00Z'')]]"
  using export_import_round_trip
    [of "\<lparr>row_id = ''1'', user_id = ''u'', title = ''Two Sum'', platform = ''LeetCode'',
        difficulty = ''Medium'', topic = ''Arrays'', status = ''Solved'', problem_url = None,
        solution_url = Some ''https://x.org/s'', notes = Some ''hash map'',
        solved_at = Some ''2025-03-10T12:00:00Z'', created_at = ''2025-03-01T08:00:00Z'',
        updated_at = ''2025-03-10T12:00:00Z''\<rparr>" "\<lambda>s. True" "''u''"]
  by (simp add: text_fields_def timestamp_fields_def csv_plain_def trimmed_def trim_def is_ws_def
      comma_def dquote_def newline_def)

text \<open>
  A title with a leading blank meets the condition of the claim and comes back without it.
\<close>

theorem round_trip_counterexample:
  "list_all csv_plain
     (text_fields \<lparr>row_id = ''1'', user_id = ''u'', title = '' A'', platform = ''P'',
        difficulty = ''Easy'', topic = ''T'', status = ''Todo'', problem_url = None,
        solution_url = None, notes = None, solved_at = None, created_at = ''c'',
        updated_at = ''d''\<rparr>)
   \<and> handleImport (\<lambda>s. True) ''u''
     (csvContent [\<lparr>row_id = ''1'', user_id = ''u'', title = '' A'', platform = ''P'',
        difficulty = ''Easy'', topic = ''T'', status = ''Todo'', problem_url = None,
        solution_url = None, notes = None, solved_at = None, created_at = ''c'',
        updated_at = ''d''\<rparr>]) =
   Inr [[(''user_id'', Some ''u''), (''title'', Some ''A''), (''platform'', Some ''P''),
         (''difficulty'', Some ''Easy''), (''topic'', Some ''T''), (''status'', Some ''Todo''),
         (''problem_url'', None), (''solution_url'', None), (''notes'', None), (''solved_at'', None)]]"
  by (simp add: text_fields_def csv_plain_def csvContent_def exportRow_def exportHeaders_def
      column_def escapeField_def handleImport_def nonBlankLines_def parseHeaders_def
      requiredHeaders_def newline_def comma_def trim_def is_ws_def remove_quotes_def dquote_def
      Let_def parseCSVLine_def buildProblem_def setField_def rowInvalid_def falsy_def)

section \<open>The daily activity series\<close>

lemma length_activityData: "length (activityData z today problems) = 30"
  by (simp add: activityData_def)

lemma solved_activityData:
  "k < 30 \<Longrightarrow>
   solved (activityData z today problems ! k) =
     solvedCount z (setDateBack z today (29 - k)) problems"
  by (simp add: activityData_def rev_nth Let_def)

lemma day_in_window:
  "(\<Sum>i\<leftarrow>[0..<n]. if d = D - int i then 1 else 0) = (if D - int n < d \<and> d \<le> D then 1 else (0::nat))"
  by (induction n) auto

lemma sum_solvedCount:
  assumes "\<forall>i < n. toDateString z (setDateBack z today i) = toDateString z today - int i"
  shows "(\<Sum>i\<leftarrow>[0..<n]. solvedCount z (setDateBack z today i) problems) =
     length (filter (\<lambda>p. case solved_at p of
                          None \<Rightarrow> False
                        | Some t \<Rightarrow> toDateString z today - int n < toDateString z t \<and>
                                    toDateString z t \<le> toDateString z today) problems)"
proof (induction problems)
  case Nil
  show ?case by (simp add: solvedCount_def)
next
  case (Cons p ps)
  have step: "solvedCount z (setDateBack z today i) (p # ps) =
      (case solved_at p of None \<Rightarrow> 0
       | Some t \<Rightarrow> if toDateString z t = toDateString z today - int i then 1 else 0) +
      solvedCount z (setDateBack z today i) ps" if "i < n" for i
    using assms that by (simp add: solvedCount_def split: option.split)
  have "(\<Sum>i\<leftarrow>[0..<n]. solvedCount z (setDateBack z today i) (p # ps)) =
      (\<Sum>i\<leftarrow>[0..<n]. (case solved_at p of None \<Rightarrow> 0
       | Some t \<Rightarrow> if toDateString z t = toDateString z today - int i then 1 else 0) +
      solvedCount z (setDateBack z today i) ps)"
    by (rule arg_cong [where f = sum_list], rule map_cong) (simp_all add: step)
  also have "\<dots> = (\<Sum>i\<leftarrow>[0..<n]. case solved_at p of None \<Rightarrow> 0
       | Some t \<Rightarrow> if toDateString z t = toDateString z today - int i then 1 else 0) +
      (\<Sum>i\<leftarrow>[0..<n]. solvedCount z (setDateBack z today i) ps)"
    by (simp add: sum_list_addf)
  also have "(\<Sum>i\<leftarrow>[0..<n]. case solved_at p of None \<Rightarrow> 0
       | Some t \<Rightarrow> if toDateString z t = toDateString z today - int i then 1 else 0) =
      (case solved_at p of None \<Rightarrow> 0
       | Some t \<Rightarrow> if toDateString z today - int n < toDateString z t \<and>
                       toDateString z t \<le> toDateString z today then 1 else (0::nat))"
    by (cases "solved_at p") (simp_all add: day_in_window)
  finally show ?case
    by (simp add: Cons.IH split: option.split)
qed

lemma setDateBack_day:
  assumes "\<And>l. LocalTime z (UTC z l) div msPerDay = l div msPerDay"
  shows "toDateString z (setDateBack z t n) = toDateString z t - int n"
proof -
  have "(LocalTime z t - int n * msPerDay) div msPerDay = LocalTime z t div msPerDay - int n"
    by (simp add: msPerDay_def)
  then show ?thesis
    by (simp add: toDateString_def setDateBack_def assms)
qed

lemma fixed_zone_setDateBack:
  "toDateString (fixed_zone off) (setDateBack (fixed_zone off) t n) =
   toDateString (fixed_zone off) t - int n"
proof -
  have "(t + off - int n * msPerDay) div msPerDay = (t + off) div msPerDay - int n"
    by (simp add: msPerDay_def)
  then show ?thesis
    by (simp add: toDateString_def setDateBack_def fixed_zone_def algebra_simps)
qed

text \<open>
  The counts of the series, entry by entry. In a zone in which a local time, taken to an
  instant and back, stays on its calendar day (the zones of fixed offset are such), the
  series has 30 entries; entry \<open>k\<close>, counted from 0, holds the number of records whose
  solved_at falls on the local day \<open>29 - k\<close> days before today; and the 30 counts add up to
  the number of records whose solved_at falls on one of these 30 local days.
\<close>

lemma activity_counts:
  assumes zone: "\<And>l. LocalTime z (UTC z l) div msPerDay = l div msPerDay"
  shows "length (activityData z today problems) = 30
       \<and> (\<forall>k < 30. solved (activityData z today problems ! k) =
             length (filter (\<lambda>p. case solved_at p of
                                  None \<Rightarrow> False
                                | Some t \<Rightarrow> toDateString z t = toDateString z today - 29 + int k)
                       problems))
       \<and> sum_list (map solved (activityData z today problems)) =
             length (filter (\<lambda>p. case solved_at p of
                                  None \<Rightarrow> False
                                | Some t \<Rightarrow> toDateString z today - 29 \<le> toDateString z t \<and>
                                            toDateString z t \<le> toDateString z today)
                       problems)"
proof -
  have days: "\<forall>i < 30. toDateString z (setDateBack z today i) = toDateString z today - int i"
    by (simp add: setDateBack_day [OF zone])
  show ?thesis
  proof (intro conjI allI impI)
    show "length (activityData z today problems) = 30"
      by (rule length_activityData)
  next
    fix k :: nat
    assume k: "k < 30"
    then have "toDateString z (setDateBack z today (29 - k)) = toDateString z today - int (29 - k)"
      using days by simp
    moreover have "toDateString z today - int (29 - k) = toDateString z today - 29 + int k"
      using k by simp
    ultimately have eq: "toDateString z (setDateBack z today (29 - k)) = toDateString z today - 29 + int k"
      by simp
    show "solved (activityData z today problems ! k) =
        length (filter (\<lambda>p. case solved_at p of
                             None \<Rightarrow> False
                           | Some t \<Rightarrow> toDateString z t = toDateString z today - 29 + int k)
                  problems)"
      unfolding solved_activityData [OF k] solvedCount_def eq by (rule refl)
  next
    have "sum_list (map solved (activityData z today problems)) =
        (\<Sum>i\<leftarrow>rev [0..<30]. solvedCount z (setDateBack z today i) problems)"
      by (simp add: activityData_def Let_def comp_def)
    also have "\<dots> = (\<Sum>i\<leftarrow>[0..<30]. solvedCount z (setDateBack z today i) problems)"
      by (simp only: rev_map [symmetric] sum_list_rev)
    also have "\<dots> = length (filter (\<lambda>p. case solved_at p of
                            None \<Rightarrow> False
                          | Some t \<Rightarrow> toDateString z today - int 30 < toDateString z t \<and>
                                      toDateString z t \<le> toDateString z today) problems)"
      by (rule sum_solvedCount [OF days])
    also have "\<dots> = length (filter (\<lambda>p. case solved_at p of
                                    None \<Rightarrow> False
                                  | Some t \<Rightarrow> toDateString z today - 29 \<le> toDateString z t \<and>
                                              toDateString z t \<le> toDateString z today)
                         problems)"
      by (rule arg_cong [where f = length], rule filter_cong) (auto split: option.split)
    finally show "sum_list (map solved (activityData z today problems)) =
        length (filter (\<lambda>p. case solved_at p of
                             None \<Rightarrow> False
                           | Some t \<Rightarrow> toDateString z today - 29 \<le> toDateString z t \<and>
                                       toDateString z t \<le> toDateString z today)
                  problems)" .
  qed
qed

text \<open>
  Claim C7 at an input where the code departs from it. The zone is five and a half hours
  ahead of universal time (India), the reference instant is 10 March 2025, 20:00 UTC, which
  is 11 March there, and the one record was solved on 10 March at 10:00 UTC, which is
  10 March there too. The entry that counts it is the one before the last, and the label
  of that entry, the date in universal time of the instant one calendar day back, is
  9 March; the last entry, labelled 10 March, counts the records of local 11 March and
  holds 0. So the entry of 10 March does not count the record solved on that date.
\<close>

theorem activity_label_day:
  "activityData (fixed_zone 19800000) 1741636800000 [stat_row ''Solved'' (Some 1741600800000)] ! 28 =
     \<lparr>date = 20156, solved = 1\<rparr>
   \<and> activityData (fixed_zone 19800000) 1741636800000 [stat_row ''Solved'' (Some 1741600800000)] ! 29 =
     \<lparr>date = 20157, solved = 0\<rparr>
   \<and> toDateString (fixed_zone 19800000) 1741600800000 = 20157
   \<and> toISODate 1741600800000 = 20157
   \<and> toDateString (fixed_zone 19800000) 1741636800000 = 20158"
  by (simp add: activityData_def solvedCount_def setDateBack_def toDateString_def toISODate_def
      fixed_zone_def stat_row_def msPerDay_def upt_rec Let_def)

section \<open>The last seven days\<close>

lemma last7Days_filter:
  "last7Days z now table =
     length (filter (\<lambda>p. status p = ''Solved'' \<and>
                          (case solved_at p of None \<Rightarrow> False | Some t \<Rightarrow> sevenDaysAgo z now \<le> t))
               table)"
  unfolding last7Days_def solvedProblems_def filter_filter
  by (rule arg_cong [where f = length], rule filter_cong) (auto split: option.split)

text \<open>
  Claim C8, as the code has it. Let the zone be \<open>off\<close> milliseconds ahead of universal time
  at \<open>now\<close>, and let it read the local time seven calendar days earlier with the same
  offset. Then the count is the number of solved records whose solved_at is not before
  \<open>now\<close> less seven times 24 hours. The window has no upper end at \<open>now\<close>: the count is the
  one of the rolling window ending at \<open>now\<close> when no record is dated after \<open>now\<close>.
\<close>

theorem last7Days_window:
  fixes z :: zone and now off :: int and table :: "int problem_row list"
  defines "back \<equiv> now + off - 7 * msPerDay"
  assumes "LocalTime z now = now + off" and "UTC z back = back - off"
  shows "last7Days z now table =
           length (filter (\<lambda>p. status p = ''Solved'' \<and>
                                (case solved_at p of
                                   None \<Rightarrow> False
                                 | Some t \<Rightarrow> now - 7 * msPerDay \<le> t)) table)
       \<and> ((\<forall>p \<in> set table. case solved_at p of None \<Rightarrow> True | Some t \<Rightarrow> t \<le> now) \<longrightarrow>
            last7Days z now table = spec_last7Days now table)"
proof (intro conjI impI)
  have ago: "sevenDaysAgo z now = now - 7 * msPerDay"
    using assms(2,3) by (simp add: sevenDaysAgo_def setDateBack_def back_def)
  show "last7Days z now table =
           length (filter (\<lambda>p. status p = ''Solved'' \<and>
                                (case solved_at p of
                                   None \<Rightarrow> False
                                 | Some t \<Rightarrow> now - 7 * msPerDay \<le> t)) table)"
    unfolding last7Days_filter ago by (rule refl)
  assume "\<forall>p \<in> set table. case solved_at p of None \<Rightarrow> True | Some t \<Rightarrow> t \<le> now"
  then show "last7Days z now table = spec_last7Days now table"
    unfolding last7Days_filter ago spec_last7Days_def
    by (intro arg_cong [where f = length] filter_cong) (auto split: option.splits)
qed

theorem last7Days_window_witness:
  "last7Days us_eastern_2025 1742493600000
     [stat_row ''Solved'' (Some 1742472000000), stat_row ''Solved'' (Some 1741888800000),
      stat_row ''Solved'' (Some 1741888799999), stat_row ''Todo'' (Some 1742472000000),
      stat_row ''Solved'' None] = 2"
  using last7Days_window [of us_eastern_2025 1742493600000 "- 14400000"
     "[stat_row ''Solved'' (Some 1742472000000), stat_row ''Solved'' (Some 1741888800000),
      stat_row ''Solved'' (Some 1741888799999), stat_row ''Todo'' (Some 1742472000000),
      stat_row ''Solved'' None]"]
  by (simp add: us_eastern_2025_def stat_row_def msPerDay_def)

text \<open>
  A solved record dated one millisecond after \<open>now\<close> is counted, and lies outside the window
  that ends at \<open>now\<close>. In US Eastern time on 10 March 2025 the instant seven calendar days
  back is 167 hours back, the clocks having gone forward in between: a solved record dated
  seven times 24 hours less 30 minutes before \<open>now\<close> lies in the window and is not counted.
\<close>

theorem last7Days_counterexample:
  "last7Days (fixed_zone 0) 1741629600000 [stat_row ''Solved'' (Some 1741629600001)] = 1
   \<and> spec_last7Days 1741629600000 [stat_row ''Solved'' (Some 1741629600001)] = 0
   \<and> sevenDaysAgo us_eastern_2025 1741629600000 = 1741629600000 - 7 * msPerDay + 3600000
   \<and> last7Days us_eastern_2025 1741629600000 [stat_row ''Solved'' (Some 1741026600000)] = 0
   \<and> spec_last7Days 1741629600000 [stat_row ''Solved'' (Some 1741026600000)] = 1"
  by (simp add: last7Days_def solvedProblems_def sevenDaysAgo_def setDateBack_def fixed_zone_def
      us_eastern_2025_def spec_last7Days_def stat_row_def msPerDay_def)

section \<open>The streak\<close>

lemma set_newSet_step:
  "set (foldl (\<lambda>seen x. if x \<in> set seen then seen else seen @ [x]) acc xs) = set acc \<union> set xs"
  by (induction xs arbitrary: acc) auto

lemma distinct_newSet_step:
  "distinct acc \<Longrightarrow> distinct (foldl (\<lambda>seen x. if x \<in> set seen then seen else seen @ [x]) acc xs)"
  by (induction xs arbitrary: acc) auto

lemma descending_newSet_step:
  fixes acc :: "int list"
  shows "sorted_wrt (\<ge>) (acc @ xs) \<Longrightarrow>
    sorted_wrt (\<ge>) (foldl (\<lambda>seen x. if x \<in> set seen then seen else seen @ [x]) acc xs)"
proof (induction xs arbitrary: acc)
  case Nil
  then show ?case by simp
next
  case (Cons x xs)
  show ?case
  proof (cases "x \<in> set acc")
    case True
    from Cons.prems have "sorted_wrt (\<ge>) (acc @ xs)"
      by (simp add: sorted_wrt_append)
    from Cons.IH [OF this] True show ?thesis by simp
  next
    case False
    from Cons.prems have "sorted_wrt (\<ge>) ((acc @ [x]) @ xs)" by simp
    from Cons.IH [OF this] False show ?thesis by simp
  qed
qed

lemma descending_unique:
  fixes xs ys :: "int list"
  assumes "sorted_wrt (\<ge>) xs" "distinct xs" "sorted_wrt (\<ge>) ys" "distinct ys" "set xs = set ys"
  shows "xs = ys"
proof -
  have "sorted (rev xs)" "sorted (rev ys)"
    using assms(1,3) by (simp_all add: sorted_wrt_rev)
  then have "rev xs = rev ys"
    using assms(2,4,5) by (intro sorted_distinct_set_unique) simp_all
  then show ?thesis by simp
qed

lemma sort_key_descending:
  assumes "\<forall>d \<in> set ds. year100 \<le> d"
  shows "sorted_wrt (\<ge>) (sort_key (\<lambda>d. - parseDateString (fixed_zone off) legacy d) ds)"
proof -
  let ?key = "\<lambda>d. - parseDateString (fixed_zone off) legacy d"
  have "sorted (map ?key (sort_key ?key ds))"
    by (rule sorted_sort_key)
  then have "sorted_wrt (\<lambda>d e. ?key d \<le> ?key e) (sort_key ?key ds)"
    by (simp add: sorted_map)
  then show ?thesis
  proof (rule sorted_wrt_mono_rel [rotated])
    fix d e
    assume "d \<in> set (sort_key ?key ds)" and "e \<in> set (sort_key ?key ds)"
    with assms have "year100 \<le> d" and "year100 \<le> e" by simp_all
    moreover assume "?key d \<le> ?key e"
    ultimately show "e \<le> d"
      by (simp add: parseDateString_def fixed_zone_def msPerDay_def)
  qed
qed

lemma newSet_sorted_days:
  assumes "\<forall>d \<in> set ds. year100 \<le> d"
  shows "newSet (sort_key (\<lambda>d. - parseDateString (fixed_zone off) legacy d) ds) =
         rev (sort (remdups ds))"
proof (rule descending_unique)
  show "sorted_wrt (\<ge>) (newSet (sort_key (\<lambda>d. - parseDateString (fixed_zone off) legacy d) ds))"
    unfolding newSet_def
    by (rule descending_newSet_step) (simp add: sort_key_descending [OF assms])
  show "distinct (newSet (sort_key (\<lambda>d. - parseDateString (fixed_zone off) legacy d) ds))"
    unfolding newSet_def by (rule distinct_newSet_step) simp
  show "sorted_wrt (\<ge>) (rev (sort (remdups ds)))"
    by (simp add: sorted_wrt_rev)
  show "distinct (rev (sort (remdups ds)))"
    by simp
  show "set (newSet (sort_key (\<lambda>d. - parseDateString (fixed_zone off) legacy d) ds)) =
        set (rev (sort (remdups ds)))"
    by (simp add: newSet_def set_newSet_step)
qed

lemma times_eq_self:
  fixes k c :: int
  shows "c \<noteq> 0 \<Longrightarrow> k * c = c \<longleftrightarrow> k = 1"
  by simp

lemma countConsecutive_fixed:
  "\<forall>d \<in> set ds. year100 \<le> d \<Longrightarrow>
   countConsecutive (fixed_zone off) legacy ds streak = streak + consecutive_days ds"
proof (induction ds arbitrary: streak rule: consecutive_days.induct)
  case (1 d e rest)
  then have late: "year100 \<le> d" "year100 \<le> e" and rest: "\<forall>d \<in> set (e # rest). year100 \<le> d"
    by simp_all
  have "parseDateString (fixed_zone off) legacy d - parseDateString (fixed_zone off) legacy e =
        (d - e) * 86400000"
    using late by (simp add: parseDateString_def fixed_zone_def msPerDay_def algebra_simps)
  moreover have "(d - e) * 86400000 = 86400000 \<longleftrightarrow> d - e = 1"
    by (rule times_eq_self) simp
  ultimately have "parseDateString (fixed_zone off) legacy d -
        parseDateString (fixed_zone off) legacy e = 1000 * 3600 * 24 \<longleftrightarrow> d - e = 1"
    by simp
  with "1.IH" rest show ?case by simp
qed simp_all

lemma fixed_zone_yesterday:
  "toDateString (fixed_zone off) (now - 86400000) = toDateString (fixed_zone off) now - 1"
proof -
  have "(now + off - 1 * 86400000) div 86400000 = (now + off) div 86400000 - 1"
    by simp
  then show ?thesis
    by (simp add: toDateString_def fixed_zone_def msPerDay_def algebra_simps)
qed

lemma solvedProblems_dated:
  "filter (\<lambda>p. solved_at p \<noteq> None) (solvedProblems table) = solvedProblems table"
  by (simp add: solvedProblems_def)

text \<open>
  In a zone of fixed offset, and with every solved day in the year 100 or later, the code
  returns the streak as the specification words it.
\<close>

lemma currentStreak_fixed_zone:
  assumes "\<forall>p \<in> set (solvedProblems table).
             year100 \<le> toDateString (fixed_zone off) (the (solved_at p))"
  shows "currentStreak (fixed_zone off) legacy now table = spec_streak (fixed_zone off) now table"
proof -
  define ds where
    "ds = map (\<lambda>p. toDateString (fixed_zone off) (the (solved_at p))) (solvedProblems table)"
  define D where "D = rev (sort (remdups ds))"
  have late: "\<forall>d \<in> set ds. year100 \<le> d"
    using assms by (simp add: ds_def)
  then have lateD: "\<forall>d \<in> set D. year100 \<le> d"
    by (simp add: D_def)
  have unique: "newSet (sort_key (\<lambda>d. - parseDateString (fixed_zone off) legacy d) ds) = D"
    unfolding D_def by (rule newSet_sorted_days [OF late])
  have days: "solved_days (fixed_zone off) table = D"
    by (simp add: solved_days_def D_def ds_def)
  have code: "currentStreak (fixed_zone off) legacy now table =
      (if solvedProblems table = [] then 0
       else if D = [] then 0
       else if D ! 0 = toDateString (fixed_zone off) now \<or>
               D ! 0 = toDateString (fixed_zone off) now - 1
            then Suc (consecutive_days D)
            else 0)"
    unfolding currentStreak_def calculateStreak_def solvedProblems_dated
    by (simp add: ds_def [symmetric] unique Let_def countConsecutive_fixed [OF lateD]
        fixed_zone_yesterday)
  have empty: "D = []" if "solvedProblems table = []"
    using that by (simp add: D_def ds_def)
  show ?thesis
  proof (cases "D = []")
    case True
    then show ?thesis
      by (simp add: code spec_streak_def days)
  next
    case False
    then have "D ! 0 = hd D" by (simp add: hd_conv_nth)
    with False empty show ?thesis
      by (auto simp: code spec_streak_def days Let_def)
  qed
qed

text \<open>
  The two examples of the streak, in universal time on 10 March 2025, 18:00: solved records
  of today, yesterday and the day before give 3; one of the day before yesterday alone
  gives 0.
\<close>

lemma streak_examples_fixed_zone:
  "currentStreak (fixed_zone 0) legacy 1741629600000
     [stat_row ''Solved'' (Some 1741608000000), stat_row ''Solved'' (Some 1741521600000),
      stat_row ''Solved'' (Some 1741435200000)] = 3
   \<and> currentStreak (fixed_zone 0) legacy 1741629600000
        [stat_row ''Solved'' (Some 1741435200000)] = 0"
  by (simp add: currentStreak_def calculateStreak_def solvedProblems_def newSet_def
      toDateString_def parseDateString_def year100_def fixed_zone_def stat_row_def msPerDay_def
      Let_def)

text \<open>
  Claim C3 at an input where the code departs from it. The zone is US Eastern time, the
  reference instant is 10 March 2025, 18:00 UTC, and the two solved records are of 9 and
  10 March, 12:00 UTC: the solved days are today and yesterday, and the streak of the claim
  is 2. The two local midnights are 23 hours apart, the clocks having gone forward on
  9 March, so the quotient of the code is not 1 and the streak it returns is 1, whatever the
  runtime reads from the date strings of early years. In a zone of fixed offset the code
  returns the streak of the claim (\<open>currentStreak_fixed_zone\<close>).
\<close>

theorem streak_across_clock_change:
  "currentStreak us_eastern_2025 legacy 1741629600000
     [stat_row ''Solved'' (Some 1741608000000), stat_row ''Solved'' (Some 1741521600000)] = 1
   \<and> spec_streak us_eastern_2025 1741629600000
     [stat_row ''Solved'' (Some 1741608000000), stat_row ''Solved'' (Some 1741521600000)] = 2
   \<and> solved_days us_eastern_2025
     [stat_row ''Solved'' (Some 1741608000000), stat_row ''Solved'' (Some 1741521600000)] = [20157, 20156]
   \<and> toDateString us_eastern_2025 1741629600000 = 20157
   \<and> parseDateString us_eastern_2025 legacy 20157 -
       parseDateString us_eastern_2025 legacy 20156 = 82800000"
  by (simp add: currentStreak_def calculateStreak_def solvedProblems_def newSet_def spec_streak_def
      solved_days_def toDateString_def parseDateString_def year100_def us_eastern_2025_def stat_row_def
      msPerDay_def Let_def)

end
